theory Spec2Isabelle
  imports Complex_Main
begin

section \<open>Data model\<close>

text \<open>
  A shallow embedding of \<^verbatim>\<open>src/validator.ts\<close> and of the parts of
  \<^verbatim>\<open>types.ts\<close> it uses. A string is the list of its code units; the code only
  compares strings, searches them for an ASCII character and splits them at an ASCII
  separator.

  The outcome enumeration of \<^verbatim>\<open>types.ts\<close>, with its ordinals.
\<close>

datatype AuthenticatorStatus =
    SUCCESS
  | BAD_RELYING_PARTY_ID_JSON_PARSE_ERROR
  | BAD_RELYING_PARTY_ID_NO_JSON_MATCH
  | BAD_RELYING_PARTY_ID_NO_JSON_MATCH_HIT_LIMITS
  | BAD_RELYING_PARTY_ID_NOT_SUBDOMAIN_OF_ORIGIN

fun ordinal :: "AuthenticatorStatus \<Rightarrow> nat" where
  "ordinal SUCCESS = 0"
| "ordinal BAD_RELYING_PARTY_ID_JSON_PARSE_ERROR = 1"
| "ordinal BAD_RELYING_PARTY_ID_NO_JSON_MATCH = 2"
| "ordinal BAD_RELYING_PARTY_ID_NO_JSON_MATCH_HIT_LIMITS = 3"
| "ordinal BAD_RELYING_PARTY_ID_NOT_SUBDOMAIN_OF_ORIGIN = 4"

text \<open>The constants of \<^verbatim>\<open>CONSTANTS\<close> in \<^verbatim>\<open>types.ts\<close>.\<close>

definition MAX_LABELS :: nat where
  "MAX_LABELS = 5"

definition WELL_KNOWN_PATH :: string where
  "WELL_KNOWN_PATH = ''/.well-known/webauthn''"

definition MAX_BODY_SIZE :: int where
  "MAX_BODY_SIZE = 2 ^ 18"

text \<open>
  Values thrown by the code or by the platform. A function that may throw returns
  \<open>js_error + 'a\<close>, with \<open>Inl\<close> for the thrown value.
\<close>

datatype js_error =
    TypeError
  | SkipDomainNotValid
  | InvalidDomain
  | HttpError
  | ResponseTooLarge
  | RequestTimeout
  | AbortError
  | OtherError

text \<open>
  The value \<^verbatim>\<open>JSON.parse\<close> returns. A number is only ever tested for being
  falsy, so the payload records the parsed value as a rational. An object is the list of
  its own properties, each name once.
\<close>

datatype json =
    JNull
  | JBool bool
  | JNumber rat
  | JString string
  | JArray "json list"
  | JObject "(string \<times> json) list"

text \<open>The two fields of a parsed \<^verbatim>\<open>URL\<close> object that the code reads.\<close>

record url =
  protocol :: string
  hostname :: string

text \<open>
  What \<^verbatim>\<open>psl.parse\<close> returns for a string: an error object (which has no
  \<^verbatim>\<open>domain\<close> key), or a parsed object whose \<^verbatim>\<open>domain\<close> is a string
  or null.
\<close>

datatype psl_result =
    PslError
  | PslParsed "string option"

text \<open>
  What an awaited promise comes to: it never settles, it rejects with an error, or it is
  fulfilled with a value.
\<close>

datatype 'a promise = Pending | Rejected js_error | Fulfilled 'a

text \<open>
  What one \<^verbatim>\<open>fetch\<close> call settles to: a rejection, or a response with its
  \<^verbatim>\<open>ok\<close> flag, its \<^verbatim>\<open>content-length\<close> header (if any) and the promise
  that \<^verbatim>\<open>response.text()\<close> returns.
\<close>

record response =
  ok :: bool
  content_length :: "string option"
  text_body :: "string promise"

text \<open>
  The platform and third-party functions the validator calls. They are not code of the
  repository, so the model takes them as parameters: \<^verbatim>\<open>new URL(s)\<close>
  (\<open>None\<close> when it throws), \<^verbatim>\<open>psl.parse\<close>, \<^verbatim>\<open>JSON.parse\<close>
  (\<open>None\<close> when it throws), \<^verbatim>\<open>parseInt\<close> (\<open>None\<close> for NaN) and
  \<^verbatim>\<open>fetch\<close> on a URL string. The promise of \<^verbatim>\<open>fetch\<close> settles, since
  the abort timer of the code runs until it does: a request that has had no answer when the
  timer fires is the rejection with an AbortError. The timer is cleared before the body is
  read, so the promise of \<^verbatim>\<open>response.text()\<close> may stay pending.
\<close>

record platform =
  URL :: "string \<Rightarrow> url option"
  psl_parse :: "string \<Rightarrow> psl_result"
  JSON_parse :: "string \<Rightarrow> json option"
  parseInt :: "string \<Rightarrow> int option"
  fetch :: "string \<Rightarrow> js_error + response"

section \<open>The label extractor\<close>

text \<open>
  The guard
  \<^verbatim>\<open>!parsed || typeof parsed === 'string' || !('domain' in parsed) || !parsed.domain\<close>
  that follows each call of \<^verbatim>\<open>psl.parse\<close>: it passes exactly when the result
  has a \<^verbatim>\<open>domain\<close> that is a non-empty string, which is then used.
\<close>

fun parsedDomain :: "psl_result \<Rightarrow> string option" where
  "parsedDomain PslError = None"
| "parsedDomain (PslParsed None) = None"
| "parsedDomain (PslParsed (Some d)) = (if d = [] then None else Some d)"

text \<open>
  \<^verbatim>\<open>getLabel\<close>; \<open>Inl\<close> is the thrown error. \<^verbatim>\<open>s.indexOf('.') === -1\<close>
  is \<open>CHR ''.'' \<notin> set s\<close>, and \<^verbatim>\<open>s.substring(0, s.indexOf('.'))\<close> is
  \<open>takeWhile (\<lambda>c. c \<noteq> CHR ''.'') s\<close>.
\<close>

definition getLabel :: "platform \<Rightarrow> string \<Rightarrow> js_error + string" where
  "getLabel P domain =
     (if CHR ''.'' \<notin> set domain then Inl SkipDomainNotValid
      else case parsedDomain (psl_parse P domain) of
             None \<Rightarrow> Inl SkipDomainNotValid
           | Some etldPlus1 \<Rightarrow>
               if CHR ''.'' \<notin> set etldPlus1 then Inr etldPlus1
               else Inr (takeWhile (\<lambda>c. c \<noteq> CHR ''.'') etldPlus1))"

section \<open>The suffix authorizer\<close>

text \<open>\<^verbatim>\<open>h.endsWith(s)\<close>: the last \<open>length s\<close> units of \<open>h\<close> are \<open>s\<close>.\<close>

definition endsWith :: "string \<Rightarrow> string \<Rightarrow> bool" where
  "endsWith h s = (length s \<le> length h \<and> drop (length h - length s) h = s)"

text \<open>
  \<^verbatim>\<open>isValidDomainForOrigin\<close>. The body is inside one \<^verbatim>\<open>try\<close> whose
  \<^verbatim>\<open>catch\<close> returns false; the only call in it that throws on a string is the
  \<^verbatim>\<open>URL\<close> constructor.
\<close>

definition isValidDomainForOrigin :: "platform \<Rightarrow> string \<Rightarrow> string \<Rightarrow> bool" where
  "isValidDomainForOrigin P callerOrigin domain =
     (case URL P callerOrigin of
        None \<Rightarrow> False
      | Some originURL \<Rightarrow>
          let originHostname = hostname originURL in
          if domain = originHostname then True
          else if \<not> endsWith originHostname (''.'' @ domain) then False
          else (case parsedDomain (psl_parse P originHostname) of
                  None \<Rightarrow> False
                | Some originETLDPlus1 \<Rightarrow>
                    (case parsedDomain (psl_parse P domain) of
                       None \<Rightarrow> False
                     | Some domainETLDPlus1 \<Rightarrow>
                         if domain = originETLDPlus1 then True
                         else if domainETLDPlus1 = originETLDPlus1
                                 \<and> endsWith originHostname (''.'' @ domain) then True
                         else False)))"

section \<open>The well-known document matcher\<close>

text \<open>
  \<^verbatim>\<open>s.split(sep)\<close> for a non-empty separator (both call sites pass a literal): the
  pieces between successive occurrences of \<open>sep\<close>, found from left to right. The second
  argument is the current piece, reversed.
\<close>

function split :: "string \<Rightarrow> string \<Rightarrow> string \<Rightarrow> string list" where
  "split sep acc [] = [rev acc]"
| "split sep acc (c # cs) =
     (if sep \<noteq> [] \<and> take (length sep) (c # cs) = sep
      then rev acc # split sep [] (drop (length sep) (c # cs))
      else split sep (c # acc) cs)"
  by pat_completeness auto
termination
  by (relation "measure (\<lambda>(sep, acc, s). length s)") auto

text \<open>\<^verbatim>\<open>s.split('://')[0]\<close>; the array that \<^verbatim>\<open>split\<close> returns is never empty.\<close>

definition schemeOf :: "string \<Rightarrow> string" where
  "schemeOf s = (case split ''://'' [] s of [] \<Rightarrow> [] | p # _ \<Rightarrow> p)"

text \<open>\<^verbatim>\<open>s.split('://')[1]?.split('/')[0] || ''\<close>.\<close>

definition hostOf :: "string \<Rightarrow> string" where
  "hostOf s =
     (case split ''://'' [] s of
        _ # p1 # _ \<Rightarrow> (case split ''/'' [] p1 of [] \<Rightarrow> [] | h # _ \<Rightarrow> h)
      | _ \<Rightarrow> [])"

text \<open>The comparison at the end of the loop body.\<close>

definition originMatches :: "string \<Rightarrow> string \<Rightarrow> bool" where
  "originMatches originStr callerOrigin =
     (schemeOf originStr = schemeOf callerOrigin \<and> hostOf originStr = hostOf callerOrigin)"

text \<open>
  The state of the loop: the \<^verbatim>\<open>Set\<close> of labels, as the list of its elements in
  insertion order (\<^verbatim>\<open>has\<close> is membership, \<^verbatim>\<open>size\<close> is the length, and
  \<^verbatim>\<open>add\<close> is only called on a label that is not in it), and the flag.
\<close>

record loop_state =
  uniqueLabels :: "string list"
  hitLimits :: bool

definition initial_state :: loop_state where
  "initial_state = \<lparr>uniqueLabels = [], hitLimits = False\<rparr>"

text \<open>One iteration: the loop goes on with a state, or the function returns SUCCESS.\<close>

datatype iteration = Continue loop_state | ReturnSuccess

definition loopBody :: "platform \<Rightarrow> string \<Rightarrow> loop_state \<Rightarrow> string \<Rightarrow> iteration" where
  "loopBody P callerOrigin st originStr =
     (case URL P originStr of
        None \<Rightarrow> Continue st
      | Some originURL \<Rightarrow>
          let domain = hostname originURL in
          if domain = [] then Continue st
          else (case getLabel P domain of
                  Inl _ \<Rightarrow> Continue st
                | Inr etldPlus1Label \<Rightarrow>
                    if etldPlus1Label \<notin> set (uniqueLabels st)
                       \<and> length (uniqueLabels st) \<ge> MAX_LABELS
                    then Continue (st\<lparr>hitLimits := True\<rparr>)
                    else
                      (let st' = (if etldPlus1Label \<notin> set (uniqueLabels st)
                                  then st\<lparr>uniqueLabels := uniqueLabels st @ [etldPlus1Label]\<rparr>
                                  else st)
                       in if originMatches originStr callerOrigin then ReturnSuccess
                          else Continue st')))"

text \<open>The loop over the origins, and the two returns after it.\<close>

fun matchLoop :: "platform \<Rightarrow> string \<Rightarrow> loop_state \<Rightarrow> string list \<Rightarrow> AuthenticatorStatus" where
  "matchLoop P callerOrigin st [] =
     (if hitLimits st then BAD_RELYING_PARTY_ID_NO_JSON_MATCH_HIT_LIMITS
      else BAD_RELYING_PARTY_ID_NO_JSON_MATCH)"
| "matchLoop P callerOrigin st (originStr # rest) =
     (case loopBody P callerOrigin st originStr of
        ReturnSuccess \<Rightarrow> SUCCESS
      | Continue st' \<Rightarrow> matchLoop P callerOrigin st' rest)"

text \<open>
  The state in which the loop leaves a list of origins; \<open>None\<close> when it has returned
  SUCCESS on one of them.
\<close>

fun stateAfter :: "platform \<Rightarrow> string \<Rightarrow> loop_state \<Rightarrow> string list \<Rightarrow> loop_state option" where
  "stateAfter P callerOrigin st [] = Some st"
| "stateAfter P callerOrigin st (originStr # rest) =
     (case loopBody P callerOrigin st originStr of
        ReturnSuccess \<Rightarrow> None
      | Continue st' \<Rightarrow> stateAfter P callerOrigin st' rest)"

text \<open>
  \<^verbatim>\<open>webAuthnResp.origins\<close>: reading a property of null throws a TypeError; a boolean,
  a number, a string and an array have no such property (\<open>None\<close> is undefined); an
  object gives its own property of that name.
\<close>

fun getOrigins :: "json \<Rightarrow> js_error + json option" where
  "getOrigins JNull = Inl TypeError"
| "getOrigins (JObject props) = Inr (map_of props ''origins'')"
| "getOrigins _ = Inr None"

text \<open>\<^verbatim>\<open>!v\<close> is false exactly on the truthy values.\<close>

fun truthy :: "json option \<Rightarrow> bool" where
  "truthy None = False"
| "truthy (Some JNull) = False"
| "truthy (Some (JBool b)) = b"
| "truthy (Some (JNumber n)) = (n \<noteq> 0)"
| "truthy (Some (JString s)) = (s \<noteq> [])"
| "truthy (Some (JArray xs)) = True"
| "truthy (Some (JObject props)) = True"

text \<open>\<^verbatim>\<open>Array.isArray(v)\<close>, giving the elements.\<close>

fun arrayOf :: "json option \<Rightarrow> json list option" where
  "arrayOf (Some (JArray xs)) = Some xs"
| "arrayOf _ = None"

text \<open>\<^verbatim>\<open>typeof v === 'string'\<close>, giving the string.\<close>

fun stringOf :: "json \<Rightarrow> string option" where
  "stringOf (JString s) = Some s"
| "stringOf _ = None"

text \<open>
  \<^verbatim>\<open>validateWellKnownJSON\<close>; \<open>Inl\<close> is a thrown error. Only
  \<^verbatim>\<open>JSON.parse\<close>, the \<^verbatim>\<open>URL\<close> constructor and \<^verbatim>\<open>getLabel\<close>
  are called inside a \<^verbatim>\<open>try\<close>.
\<close>

definition validateWellKnownJSON :: "platform \<Rightarrow> string \<Rightarrow> string \<Rightarrow> js_error + AuthenticatorStatus" where
  "validateWellKnownJSON P callerOrigin jsonData =
     (case JSON_parse P jsonData of
        None \<Rightarrow> Inr BAD_RELYING_PARTY_ID_JSON_PARSE_ERROR
      | Some webAuthnResp \<Rightarrow>
          (case getOrigins webAuthnResp of
             Inl e \<Rightarrow> Inl e
           | Inr origins \<Rightarrow>
               (case (if truthy origins then arrayOf origins else None) of
                  None \<Rightarrow> Inr BAD_RELYING_PARTY_ID_JSON_PARSE_ERROR
                | Some elems \<Rightarrow>
                    if list_ex (\<lambda>origin. stringOf origin = None) elems
                    then Inr BAD_RELYING_PARTY_ID_JSON_PARSE_ERROR
                    else (case URL P callerOrigin of
                            None \<Rightarrow> Inr BAD_RELYING_PARTY_ID_NO_JSON_MATCH
                          | Some callerURL \<Rightarrow>
                              Inr (matchLoop P callerOrigin initial_state
                                     (List.map_filter stringOf elems))))))"

section \<open>Fetching the document and the orchestrator\<close>

text \<open>\<^verbatim>\<open>s.startsWith(p)\<close>.\<close>

definition startsWith :: "string \<Rightarrow> string \<Rightarrow> bool" where
  "startsWith s p = (take (length p) s = p)"

text \<open>
  \<^verbatim>\<open>fetchWellKnownWebAuthn\<close>, in three parts: the URL it requests
  (\<open>wellKnownURL\<close>), the test of the \<^verbatim>\<open>content-length\<close> header
  (\<open>declaredTooLarge\<close>) and the request. The result is what the promise it returns
  comes to. The timeout is the rejection of \<^verbatim>\<open>fetch\<close> with an AbortError;
  \<^verbatim>\<open>clearTimeout\<close> is called as soon as \<^verbatim>\<open>fetch\<close> has resolved, so
  nothing bounds the await of \<^verbatim>\<open>response.text()\<close>. The errors thrown inside the
  inner \<^verbatim>\<open>try\<close> are rethrown by its \<^verbatim>\<open>catch\<close>, an AbortError as a
  timeout error.
\<close>

definition rethrow :: "js_error \<Rightarrow> js_error" where
  "rethrow e = (if e = AbortError then RequestTimeout else e)"

definition wellKnownURL :: "platform \<Rightarrow> string \<Rightarrow> js_error + string" where
  "wellKnownURL P domain0 =
     (let domain = (if \<not> startsWith domain0 ''https://'' \<and> \<not> startsWith domain0 ''http://''
                    then ''https://'' @ domain0 else domain0)
      in case URL P domain of
           None \<Rightarrow> Inl InvalidDomain
         | Some parsedURL \<Rightarrow>
             Inr (protocol parsedURL @ ''//'' @ hostname parsedURL @ WELL_KNOWN_PATH))"

definition declaredTooLarge :: "platform \<Rightarrow> response \<Rightarrow> bool" where
  "declaredTooLarge P resp =
     (case content_length resp of
        None \<Rightarrow> False
      | Some contentLength \<Rightarrow>
          contentLength \<noteq> []
          \<and> (case parseInt P contentLength of
                None \<Rightarrow> False
              | Some n \<Rightarrow> n > MAX_BODY_SIZE))"

definition fetchWellKnownWebAuthn :: "platform \<Rightarrow> string \<Rightarrow> string promise" where
  "fetchWellKnownWebAuthn P domain =
     (case wellKnownURL P domain of
        Inl e \<Rightarrow> Rejected e
      | Inr url \<Rightarrow>
          (case fetch P url of
             Inl e \<Rightarrow> Rejected (rethrow e)
           | Inr resp \<Rightarrow>
               if \<not> ok resp then Rejected (rethrow HttpError)
               else if declaredTooLarge P resp then Rejected (rethrow ResponseTooLarge)
               else (case text_body resp of
                       Pending \<Rightarrow> Pending
                     | Rejected e \<Rightarrow> Rejected (rethrow e)
                     | Fulfilled txt \<Rightarrow>
                         if int (length txt) > MAX_BODY_SIZE
                         then Rejected (rethrow ResponseTooLarge)
                         else Fulfilled txt)))"

text \<open>
  \<^verbatim>\<open>validateOrigin\<close>; the result is what the promise it returns comes to. The
  fetch and the matcher both run inside the \<^verbatim>\<open>try\<close>, whose \<^verbatim>\<open>catch\<close>
  is only reached when the awaited fetch rejects or the matcher throws.
\<close>

definition validateOrigin :: "platform \<Rightarrow> string \<Rightarrow> string \<Rightarrow> AuthenticatorStatus promise" where
  "validateOrigin P callerOrigin domain =
     (if isValidDomainForOrigin P callerOrigin domain then Fulfilled SUCCESS
      else case fetchWellKnownWebAuthn P domain of
             Pending \<Rightarrow> Pending
           | Rejected e \<Rightarrow> Fulfilled BAD_RELYING_PARTY_ID_NO_JSON_MATCH
           | Fulfilled jsonData \<Rightarrow>
               (case validateWellKnownJSON P callerOrigin jsonData of
                  Inl e \<Rightarrow> Fulfilled BAD_RELYING_PARTY_ID_NO_JSON_MATCH
                | Inr status \<Rightarrow> Fulfilled status))"

section \<open>An example platform\<close>

text \<open>
  A platform for concrete runs: a table of what the \<^verbatim>\<open>URL\<close> constructor,
  \<^verbatim>\<open>psl.parse\<close>, \<^verbatim>\<open>JSON.parse\<close> and \<^verbatim>\<open>parseInt\<close> of Node
  give on the strings listed (a string that is not listed is not parsed), and a network
  in which \<^verbatim>\<open>bar.com\<close> answers 404, \<^verbatim>\<open>baz.com\<close> serves a document,
  \<^verbatim>\<open>stalled.com\<close> answers 200 and then never sends its body, and no other host is
  reached.
\<close>

definition example_hosts :: "(string \<times> string) list" where
  "example_hosts =
     [(''https://foo.com'', ''foo.com''),
      (''https://foo.com:8080'', ''foo.com''),
      (''https://foo.com:9090'', ''foo.com''),
      (''HTTPS://Foo.com'', ''foo.com''),
      (''https://a.com'', ''a.com''),
      (''https://b.com'', ''b.com''),
      (''https://c.com'', ''c.com''),
      (''https://d.com'', ''d.com''),
      (''https://e.com'', ''e.com''),
      (''https://sub.a.com'', ''sub.a.com''),
      (''https://sub.example.com'', ''sub.example.com''),
      (''https:///localhost'', ''localhost''),
      (''https:///foo.com'', ''foo.com''),
      (''https://bar.com'', ''bar.com''),
      (''https://baz.com'', ''baz.com''),
      (''https://stalled.com'', ''stalled.com'')]"

definition example_domains :: "(string \<times> string) list" where
  "example_domains =
     [(''foo.com'', ''foo.com''),
      (''a.com'', ''a.com''),
      (''b.com'', ''b.com''),
      (''c.com'', ''c.com''),
      (''d.com'', ''d.com''),
      (''e.com'', ''e.com''),
      (''sub.a.com'', ''a.com''),
      (''sub.example.com'', ''example.com''),
      (''example.com'', ''example.com''),
      (''sub.example.co.uk'', ''example.co.uk'')]"

definition origins_document :: "string list \<Rightarrow> json" where
  "origins_document origins = JObject [(''origins'', JArray (map JString origins))]"

definition example_documents :: "(string \<times> json) list" where
  \<open>example_documents =
     [(''null'', JNull),
      (''{"origins": []}'', origins_document []),
      (''{"origins": ["https://foo.com"]}'', origins_document [''https://foo.com'']),
      (''{"origins": ["invalid-url", "https://foo.com"]}'',
         origins_document [''invalid-url'', ''https://foo.com'']),
      (''{"origins": ["https://a.com", "https://b.com", "https://c.com", "https://d.com", "https://foo.com"]}'',
         origins_document [''https://a.com'', ''https://b.com'', ''https://c.com'',
           ''https://d.com'', ''https://foo.com'']),
      (''{"origins": ["https://a.com", "https://b.com", "https://c.com", "https://d.com", "https://e.com", "https://foo.com"]}'',
         origins_document [''https://a.com'', ''https://b.com'', ''https://c.com'',
           ''https://d.com'', ''https://e.com'', ''https://foo.com'']),
      (''{"origins": ["https://a.com", "https://b.com", "https://c.com", "https://d.com", "https://e.com", "https://foo.com", "https://sub.a.com"]}'',
         origins_document [''https://a.com'', ''https://b.com'', ''https://c.com'',
           ''https://d.com'', ''https://e.com'', ''https://foo.com'', ''https://sub.a.com'']),
      (''{"origins": ["HTTPS://Foo.com"]}'', origins_document [''HTTPS://Foo.com'']),
      (''{"origins":["https://foo.com:9090"]}'', origins_document [''https://foo.com:9090'']),
      (''{"origins": ["https:///foo.com"]}'', origins_document [''https:///foo.com''])]\<close>

definition example_network :: "(string \<times> response) list" where
  \<open>example_network =
     [(''https://bar.com/.well-known/webauthn'',
         \<lparr>ok = False, content_length = None, text_body = Fulfilled []\<rparr>),
      (''https://baz.com/.well-known/webauthn'',
         \<lparr>ok = True, content_length = Some ''100'',
          text_body = Fulfilled ''{"origins": ["https://foo.com"]}''\<rparr>),
      (''https://stalled.com/.well-known/webauthn'',
         \<lparr>ok = True, content_length = None, text_body = Pending\<rparr>)]\<close>

definition example_platform :: platform where
  "example_platform =
     \<lparr>URL = (\<lambda>s. map_option (\<lambda>h. \<lparr>protocol = ''https:'', hostname = h\<rparr>)
                   (map_of example_hosts s)),
      psl_parse = (\<lambda>s. PslParsed (map_of example_domains s)),
      JSON_parse = map_of example_documents,
      parseInt = map_of [(''100'', 100)],
      fetch = (\<lambda>u. case map_of example_network u of
                        None \<Rightarrow> Inl OtherError
                      | Some resp \<Rightarrow> Inr resp)\<rparr>"

section \<open>Properties of the loop\<close>

text \<open>
  What holds of the state at every iteration: the set has at most \<open>MAX_LABELS\<close>
  elements, the list that stands for it has no duplicates, and the flag is only set on a
  full set.
\<close>

definition quota_inv :: "loop_state \<Rightarrow> bool" where
  "quota_inv st = (length (uniqueLabels st) \<le> MAX_LABELS \<and> distinct (uniqueLabels st)
                    \<and> (if hitLimits st then length (uniqueLabels st) = MAX_LABELS else True))"

section \<open>Runs on the example platform\<close>

text \<open>The definitions that a concrete run unfolds.\<close>

lemmas example_defs = example_platform_def example_hosts_def example_domains_def
  example_documents_def example_network_def origins_document_def

lemmas run_defs = example_defs loopBody_def getLabel_def originMatches_def schemeOf_def
  hostOf_def initial_state_def MAX_LABELS_def

section \<open>Structurally valid documents\<close>

text \<open>
  A document is structurally valid when it parses to an object whose \<^verbatim>\<open>origins\<close>
  property is an array of strings. On such a document the function is the loop over these
  strings, unless the caller origin does not parse.
\<close>

lemma map_filter_stringOf: "List.map_filter stringOf (map JString xs) = xs"
  by (induction xs) simp_all

lemma all_strings: "\<not> list_ex (\<lambda>origin. stringOf origin = None) (map JString xs)"
  by (induction xs) simp_all

lemma all_strings_iff:
  "\<not> list_ex (\<lambda>origin. stringOf origin = None) elems \<longleftrightarrow> (\<exists>origins. elems = map JString origins)"
proof (induction elems)
  case Nil
  then show ?case by simp
next
  case (Cons e elems)
  show ?case
  proof (cases e)
    case (JString s)
    show ?thesis
    proof
      assume "\<not> list_ex (\<lambda>origin. stringOf origin = None) (e # elems)"
      with Cons JString obtain origins where "elems = map JString origins"
        by auto
      with JString have "e # elems = map JString (s # origins)"
        by simp
      then show "\<exists>origins. e # elems = map JString origins" ..
    next
      assume "\<exists>origins. e # elems = map JString origins"
      then show "\<not> list_ex (\<lambda>origin. stringOf origin = None) (e # elems)"
        using all_strings by auto
    qed
  qed (auto simp: map_eq_Cons_conv)
qed

lemma validate_valid_document_any_caller:
  assumes "JSON_parse P jsonData = Some (JObject props)"
    and "map_of props ''origins'' = Some (JArray (map JString origins))"
  shows "validateWellKnownJSON P callerOrigin jsonData
           = (case URL P callerOrigin of
                None \<Rightarrow> Inr BAD_RELYING_PARTY_ID_NO_JSON_MATCH
              | Some callerURL \<Rightarrow> Inr (matchLoop P callerOrigin initial_state origins))"
  using assms
  by (simp add: validateWellKnownJSON_def map_filter_stringOf all_strings split: option.splits)

lemma validate_valid_document:
  assumes "JSON_parse P jsonData = Some (JObject props)"
    and "map_of props ''origins'' = Some (JArray (map JString origins))"
    and "URL P callerOrigin = Some callerURL"
  shows "validateWellKnownJSON P callerOrigin jsonData
           = Inr (matchLoop P callerOrigin initial_state origins)"
  using assms by (simp add: validateWellKnownJSON_def map_filter_stringOf all_strings)

section \<open>The loop\<close>

lemma matchLoop_append:
  "matchLoop P c st (xs @ ys) =
     (case stateAfter P c st xs of None \<Rightarrow> SUCCESS | Some st' \<Rightarrow> matchLoop P c st' ys)"
  by (induction xs arbitrary: st) (simp_all split: iteration.splits)

lemma loopBody_inv:
  assumes "quota_inv st" and "loopBody P c st x = Continue st'"
  shows "quota_inv st'"
  using assms
  by (auto simp: loopBody_def quota_inv_def Let_def split: option.splits sum.splits if_splits)

lemma stateAfter_inv:
  assumes "quota_inv st" and "stateAfter P c st xs = Some st'"
  shows "quota_inv st'"
  using assms
proof (induction xs arbitrary: st)
  case Nil
  then show ?case by simp
next
  case (Cons x xs)
  then show ?case
    by (auto split: iteration.splits dest: loopBody_inv)
qed

lemma initial_inv: "quota_inv initial_state"
  by (simp add: quota_inv_def initial_state_def)

lemma loopBody_hit:
  assumes "hitLimits st" and "loopBody P c st x = Continue st'"
  shows "hitLimits st'"
  using assms
  by (auto simp: loopBody_def Let_def split: option.splits sum.splits if_splits)

lemma matchLoop_hit:
  "hitLimits st \<Longrightarrow> matchLoop P c st xs \<noteq> SUCCESS
     \<Longrightarrow> matchLoop P c st xs = BAD_RELYING_PARTY_ID_NO_JSON_MATCH_HIT_LIMITS"
proof (induction xs arbitrary: st)
  case Nil
  then show ?case by simp
next
  case (Cons x xs)
  then show ?case
    by (auto split: iteration.splits dest: loopBody_hit)
qed

lemma loopBody_success:
  "loopBody P c st x = ReturnSuccess \<Longrightarrow> originMatches x c"
  by (auto simp: loopBody_def Let_def split: option.splits sum.splits if_splits)

lemma matchLoop_success:
  "matchLoop P c st xs = SUCCESS \<Longrightarrow> \<exists>x \<in> set xs. originMatches x c"
proof (induction xs arbitrary: st)
  case Nil
  then show ?case by (simp split: if_splits)
next
  case (Cons x xs)
  then show ?case
    by (auto split: iteration.splits dest: loopBody_success)
qed

lemma matchLoop_range:
  "matchLoop P c st xs \<in> {SUCCESS, BAD_RELYING_PARTY_ID_NO_JSON_MATCH,
      BAD_RELYING_PARTY_ID_NO_JSON_MATCH_HIT_LIMITS}"
  by (induction xs arbitrary: st) (simp_all split: iteration.splits)

lemma matchLoop_no_match:
  assumes "\<forall>x \<in> set xs. \<not> originMatches x c" and "\<not> hitLimits st"
    and "length (uniqueLabels st) + length xs \<le> MAX_LABELS"
  shows "matchLoop P c st xs = BAD_RELYING_PARTY_ID_NO_JSON_MATCH"
  using assms
proof (induction xs arbitrary: st)
  case Nil
  then show ?case by simp
next
  case (Cons x xs)
  have "loopBody P c st x = Continue st
      \<or> (\<exists>l. loopBody P c st x = Continue (st\<lparr>uniqueLabels := uniqueLabels st @ [l]\<rparr>))"
    using Cons.prems
    by (auto simp: loopBody_def Let_def split: option.splits sum.splits)
  then show ?case
    using Cons by auto
qed

lemma loopBody_full:
  assumes "length (uniqueLabels st) = MAX_LABELS"
  shows "(\<exists>st'. loopBody P c st x = Continue st' \<and> uniqueLabels st' = uniqueLabels st)
     \<or> (loopBody P c st x = ReturnSuccess
         \<and> (\<exists>xURL xLabel. URL P x = Some xURL \<and> getLabel P (hostname xURL) = Inr xLabel
               \<and> xLabel \<in> set (uniqueLabels st) \<and> originMatches x c))"
  using assms
  by (auto simp: loopBody_def Let_def split: option.splits sum.splits)

lemma matchLoop_full_success:
  assumes "length (uniqueLabels st) = MAX_LABELS" and "matchLoop P c st xs = SUCCESS"
  shows "\<exists>x \<in> set xs. \<exists>xURL xLabel. URL P x = Some xURL
     \<and> getLabel P (hostname xURL) = Inr xLabel
     \<and> xLabel \<in> set (uniqueLabels st) \<and> originMatches x c"
  using assms
proof (induction xs arbitrary: st)
  case Nil
  then show ?case by (simp split: if_splits)
next
  case (Cons x xs)
  from loopBody_full[OF Cons.prems(1), of P c x] show ?case
  proof (elim disjE exE conjE)
    fix st'
    assume step: "loopBody P c st x = Continue st'" and same: "uniqueLabels st' = uniqueLabels st"
    with Cons.prems have "matchLoop P c st' xs = SUCCESS" and "length (uniqueLabels st') = MAX_LABELS"
      by simp_all
    from Cons.IH[OF this(2) this(1)] same show ?thesis
      by auto
  next
    fix xURL xLabel
    assume "URL P x = Some xURL" "getLabel P (hostname xURL) = Inr xLabel"
      "xLabel \<in> set (uniqueLabels st)" "originMatches x c"
    then show ?thesis
      by auto
  qed
qed

lemma dotless_element_is_skipped:
  assumes "URL P originStr = Some originURL" and "CHR ''.'' \<notin> set (hostname originURL)"
  shows "loopBody P callerOrigin st originStr = Continue st"
  using assms by (simp add: loopBody_def getLabel_def Let_def)

lemma validateWellKnownJSON_range:
  assumes "validateWellKnownJSON P callerOrigin jsonData = Inr status"
  shows "status \<in> {SUCCESS, BAD_RELYING_PARTY_ID_JSON_PARSE_ERROR,
      BAD_RELYING_PARTY_ID_NO_JSON_MATCH, BAD_RELYING_PARTY_ID_NO_JSON_MATCH_HIT_LIMITS}"
  using assms matchLoop_range[of P callerOrigin initial_state]
  by (auto simp: validateWellKnownJSON_def split: option.splits sum.splits if_splits)

lemma parse_error_unless_null:
  assumes "JSON_parse P jsonData \<noteq> Some JNull"
  shows "validateWellKnownJSON P callerOrigin jsonData = Inr BAD_RELYING_PARTY_ID_JSON_PARSE_ERROR
     \<longleftrightarrow> JSON_parse P jsonData = None
        \<or> (\<exists>v. JSON_parse P jsonData = Some v
              \<and> \<not> (\<exists>props origins. v = JObject props
                    \<and> map_of props ''origins'' = Some (JArray (map JString origins))))"
proof (cases "JSON_parse P jsonData")
  case None
  then show ?thesis by (simp add: validateWellKnownJSON_def)
next
  case (Some v)
  have loop: "matchLoop P callerOrigin initial_state xs \<noteq> BAD_RELYING_PARTY_ID_JSON_PARSE_ERROR" for xs
    using matchLoop_range[of P callerOrigin initial_state xs] by auto
  show ?thesis
  proof (cases "\<exists>props elems. v = JObject props \<and> map_of props ''origins'' = Some (JArray elems)")
    case True
    then obtain props elems where v: "v = JObject props"
      and origins: "map_of props ''origins'' = Some (JArray elems)"
      by auto
    show ?thesis
      using Some v origins all_strings_iff[of elems] loop
      by (auto simp: validateWellKnownJSON_def split: option.splits)
  next
    case False
    have "(if truthy origins then arrayOf origins else None) = None"
      if "getOrigins v = Inr origins" for origins
      using that False
      by (cases v; cases origins; simp; cases "the origins"; simp)
    moreover have "getOrigins v \<noteq> Inl e" for e
      using Some assms by (cases v) auto
    ultimately have "validateWellKnownJSON P callerOrigin jsonData
        = Inr BAD_RELYING_PARTY_ID_JSON_PARSE_ERROR"
      using Some by (auto simp: validateWellKnownJSON_def split: sum.splits)
    then show ?thesis
      using Some False by auto
  qed
qed

section \<open>The texts that are compared\<close>

lemma loopBody_success_iff:
  "loopBody P c st x = ReturnSuccess \<longleftrightarrow>
     (\<exists>xURL xLabel. URL P x = Some xURL \<and> hostname xURL \<noteq> []
        \<and> getLabel P (hostname xURL) = Inr xLabel
        \<and> (xLabel \<in> set (uniqueLabels st) \<or> length (uniqueLabels st) < MAX_LABELS)
        \<and> originMatches x c)"
  by (auto simp: loopBody_def Let_def split: option.splits sum.splits)

lemma matchLoop_success_iff:
  "matchLoop P c st xs = SUCCESS \<longleftrightarrow>
     (\<exists>before x rest st'. xs = before @ x # rest \<and> stateAfter P c st before = Some st'
        \<and> loopBody P c st' x = ReturnSuccess)"
proof (induction xs arbitrary: st)
  case Nil
  then show ?case by simp
next
  case (Cons y ys)
  show ?case
  proof (cases "loopBody P c st y")
    case ReturnSuccess
    then have "y # ys = [] @ y # ys \<and> stateAfter P c st [] = Some st
        \<and> loopBody P c st y = ReturnSuccess"
      by simp
    then have "\<exists>before x rest st'. y # ys = before @ x # rest
        \<and> stateAfter P c st before = Some st' \<and> loopBody P c st' x = ReturnSuccess"
      by blast
    with ReturnSuccess show ?thesis
      by simp
  next
    case (Continue st1)
    have "(\<exists>before x rest st'. y # ys = before @ x # rest
            \<and> stateAfter P c st before = Some st' \<and> loopBody P c st' x = ReturnSuccess)
        \<longleftrightarrow> (\<exists>before x rest st'. ys = before @ x # rest
            \<and> stateAfter P c st1 before = Some st' \<and> loopBody P c st' x = ReturnSuccess)"
      (is "?L \<longleftrightarrow> ?R")
    proof
      assume ?L
      then obtain before x rest st' where split: "y # ys = before @ x # rest"
        and state: "stateAfter P c st before = Some st'"
        and hit: "loopBody P c st' x = ReturnSuccess"
        by blast
      show ?R
      proof (cases before)
        case Nil
        with split state hit Continue show ?thesis by simp
      next
        case (Cons b before')
        with split state Continue have "ys = before' @ x # rest"
          and "stateAfter P c st1 before' = Some st'"
          by simp_all
        with hit show ?thesis by blast
      qed
    next
      assume ?R
      then obtain before x rest st' where "ys = before @ x # rest"
        and "stateAfter P c st1 before = Some st'"
        and hit: "loopBody P c st' x = ReturnSuccess"
        by blast
      with Continue have "y # ys = (y # before) @ x # rest"
        and "stateAfter P c st (y # before) = Some st'"
        by simp_all
      with hit show ?L by blast
    qed
    with Continue Cons.IH[of st1] show ?thesis
      by simp
  qed
qed

lemma split_first_piece: "\<exists>q ps. split sep acc s = (rev acc @ q) # ps"
proof (induction s arbitrary: acc)
  case Nil
  then show ?case by simp
next
  case (Cons c cs)
  show ?case
  proof (cases "sep \<noteq> [] \<and> take (length sep) (c # cs) = sep")
    case True
    then have "split sep acc (c # cs) = (rev acc @ []) # split sep [] (drop (length sep) (c # cs))"
      by simp
    then show ?thesis by blast
  next
    case False
    from Cons[of "c # acc"] obtain q ps where "split sep (c # acc) cs = (rev (c # acc) @ q) # ps"
      by blast
    with False have "split sep acc (c # cs) = (rev acc @ (c # q)) # ps"
      by simp
    then show ?thesis by blast
  qed
qed

lemma split_scheme:
  "CHR '':'' \<notin> set s \<Longrightarrow> split ''://'' acc (s @ ''://'' @ t) = (rev acc @ s) # split ''://'' [] t"
  by (induction s arbitrary: acc) auto

lemma split_host_end:
  "CHR ''/'' \<notin> set h \<Longrightarrow> h = [] \<or> last h \<noteq> CHR '':'' \<Longrightarrow> split ''://'' acc h = [rev acc @ h]"
proof (induction h arbitrary: acc)
  case Nil
  then show ?case by simp
next
  case (Cons c cs)
  have cs: "CHR ''/'' \<notin> set cs" "cs = [] \<or> last cs \<noteq> CHR '':''"
    using Cons.prems by (auto split: if_splits)
  have "\<not> (''://'' \<noteq> [] \<and> take (length ''://'') (c # cs) = ''://'')"
    using Cons.prems by (cases cs) auto
  then have "split ''://'' acc (c # cs) = split ''://'' (c # acc) cs"
    by (simp only: split.simps if_False)
  with Cons.IH[OF cs, of "c # acc"] show ?case
    by simp
qed

lemma split_host_path:
  "CHR ''/'' \<notin> set h \<Longrightarrow> h = [] \<or> last h \<noteq> CHR '':''
     \<Longrightarrow> \<exists>q ps. split ''://'' acc (h @ CHR ''/'' # path) = (rev acc @ h @ CHR ''/'' # q) # ps"
proof (induction h arbitrary: acc)
  case Nil
  from split_first_piece[of "''://''" "CHR ''/'' # acc" path]
  show ?case by auto
next
  case (Cons c cs)
  have cs: "CHR ''/'' \<notin> set cs" "cs = [] \<or> last cs \<noteq> CHR '':''"
    using Cons.prems by (auto split: if_splits)
  have "\<not> (''://'' \<noteq> [] \<and> take (length ''://'') (c # (cs @ CHR ''/'' # path)) = ''://'')"
    using Cons.prems by (cases cs) auto
  then have "split ''://'' acc ((c # cs) @ CHR ''/'' # path)
      = split ''://'' (c # acc) (cs @ CHR ''/'' # path)"
    by (simp only: append_Cons split.simps if_False)
  with Cons.IH[OF cs, of "c # acc"] show ?case
    by simp
qed

lemma split_slash:
  "CHR ''/'' \<notin> set h \<Longrightarrow> split ''/'' acc h = [rev acc @ h]"
  "CHR ''/'' \<notin> set h \<Longrightarrow> split ''/'' acc (h @ CHR ''/'' # t) = (rev acc @ h) # split ''/'' [] t"
  by (induction h arbitrary: acc) auto

lemma scheme_and_host_texts:
  assumes "CHR '':'' \<notin> set scheme" and "CHR ''/'' \<notin> set hostport"
    and "hostport = [] \<or> last hostport \<noteq> CHR '':''"
  shows "schemeOf (scheme @ ''://'' @ hostport) = scheme"
    and "hostOf (scheme @ ''://'' @ hostport) = hostport"
    and "schemeOf (scheme @ ''://'' @ hostport @ CHR ''/'' # path) = scheme"
    and "hostOf (scheme @ ''://'' @ hostport @ CHR ''/'' # path) = hostport"
proof -
  show "schemeOf (scheme @ ''://'' @ hostport) = scheme"
    and "schemeOf (scheme @ ''://'' @ hostport @ CHR ''/'' # path) = scheme"
    using split_scheme[OF assms(1), of "[]"] by (simp_all add: schemeOf_def)
  show "hostOf (scheme @ ''://'' @ hostport) = hostport"
    using split_scheme[OF assms(1), of "[]" hostport] split_host_end[OF assms(2,3), of "[]"]
      split_slash(1)[OF assms(2), of "[]"]
    by (simp add: hostOf_def)
  obtain q ps where "split ''://'' [] (hostport @ CHR ''/'' # path) = (hostport @ CHR ''/'' # q) # ps"
    using split_host_path[OF assms(2,3), of "[]" path] by auto
  then show "hostOf (scheme @ ''://'' @ hostport @ CHR ''/'' # path) = hostport"
    using split_scheme[OF assms(1), of "[]" "hostport @ CHR ''/'' # path"]
      split_slash(2)[OF assms(2), of "[]" q]
    by (simp add: hostOf_def)
qed

section \<open>The claims\<close>

text \<open>
  Claim C1. \<^verbatim>\<open>isValidDomainForOrigin\<close> returns true exactly when the caller origin
  parses as a URL with hostname \<open>H\<close> and either the domain equals \<open>H\<close>, or \<open>H\<close>
  ends with a dot followed by the domain, the registrable domains of \<open>H\<close> and of the
  domain both resolve, and the domain equals the registrable domain of \<open>H\<close> or has the same
  registrable domain as \<open>H\<close>. On a caller origin that does not parse it returns false.
\<close>

theorem isValidDomainForOrigin_iff:
  "(isValidDomainForOrigin P callerOrigin domain \<longleftrightarrow>
      (\<exists>originURL. URL P callerOrigin = Some originURL \<and>
         (domain = hostname originURL
          \<or> (endsWith (hostname originURL) (''.'' @ domain)
              \<and> (\<exists>hostETLD domainETLD.
                    parsedDomain (psl_parse P (hostname originURL)) = Some hostETLD
                    \<and> parsedDomain (psl_parse P domain) = Some domainETLD
                    \<and> (domain = hostETLD \<or> domainETLD = hostETLD))))))
   \<and> (URL P callerOrigin = None \<longrightarrow> \<not> isValidDomainForOrigin P callerOrigin domain)"
  by (auto simp: isValidDomainForOrigin_def Let_def split: option.splits)

text \<open>
  A subdomain, the hostname itself, another domain and a caller origin that is not a URL.
\<close>

theorem isValidDomainForOrigin_iff_witness:
  "isValidDomainForOrigin example_platform ''https://sub.example.com'' ''example.com''
   \<and> isValidDomainForOrigin example_platform ''https://foo.com'' ''foo.com''
   \<and> \<not> isValidDomainForOrigin example_platform ''https://foo.com'' ''bar.com''
   \<and> \<not> isValidDomainForOrigin example_platform ''invalid-url'' ''example.com''"
  using isValidDomainForOrigin_iff[of example_platform "''https://sub.example.com''" "''example.com''"]
    isValidDomainForOrigin_iff[of example_platform "''https://foo.com''" "''foo.com''"]
    isValidDomainForOrigin_iff[of example_platform "''https://foo.com''" "''bar.com''"]
    isValidDomainForOrigin_iff[of example_platform "''invalid-url''" "''example.com''"]
  by (simp add: example_defs endsWith_def)

text \<open>
  Claim C2. In a structurally valid document scanned for a caller origin that parses, take
  an element that the loop reaches without having returned, whose label is not in the set
  yet and which equals the caller origin in the loop's comparison. The set then holds at
  most 5 distinct labels. If it holds fewer than 5, so that the element carries at most the
  5th label, the result is SUCCESS. If it holds 5, the element is not compared: the scan
  goes on with the flag set, and the result is SUCCESS or NO_MATCH_HIT_LIMITS, the latter
  whenever no later element with a label of the set equals the caller origin.
\<close>

theorem label_quota_is_five:
  assumes doc: "JSON_parse P jsonData = Some (JObject props)"
      "map_of props ''origins'' = Some (JArray (map JString (before @ originStr # rest)))"
    and caller: "URL P callerOrigin = Some callerURL"
    and before: "stateAfter P callerOrigin initial_state before = Some st"
    and elem: "URL P originStr = Some originURL" "hostname originURL \<noteq> []"
      "getLabel P (hostname originURL) = Inr label" "label \<notin> set (uniqueLabels st)"
    and eq: "originMatches originStr callerOrigin"
  shows "length (uniqueLabels st) \<le> 5 \<and> distinct (uniqueLabels st)
     \<and> (length (uniqueLabels st) < 5 \<longrightarrow>
          validateWellKnownJSON P callerOrigin jsonData = Inr SUCCESS)
     \<and> (length (uniqueLabels st) = 5 \<longrightarrow>
          validateWellKnownJSON P callerOrigin jsonData
            = Inr (matchLoop P callerOrigin (st\<lparr>hitLimits := True\<rparr>) rest)
          \<and> validateWellKnownJSON P callerOrigin jsonData
              \<in> {Inr SUCCESS, Inr BAD_RELYING_PARTY_ID_NO_JSON_MATCH_HIT_LIMITS}
          \<and> ((\<forall>x \<in> set rest. \<forall>xURL xLabel. URL P x = Some xURL
                  \<longrightarrow> getLabel P (hostname xURL) = Inr xLabel
                  \<longrightarrow> xLabel \<in> set (uniqueLabels st)
                  \<longrightarrow> \<not> originMatches x callerOrigin) \<longrightarrow>
                validateWellKnownJSON P callerOrigin jsonData
                  = Inr BAD_RELYING_PARTY_ID_NO_JSON_MATCH_HIT_LIMITS))"
proof -
  have inv: "quota_inv st"
    using stateAfter_inv[OF initial_inv before] .
  have run: "validateWellKnownJSON P callerOrigin jsonData
               = Inr (matchLoop P callerOrigin st (originStr # rest))"
    using validate_valid_document[OF doc caller] before
    by (simp add: matchLoop_append)
  have room: "loopBody P callerOrigin st originStr = ReturnSuccess"
    if "length (uniqueLabels st) < 5"
    using that elem eq by (simp add: loopBody_def MAX_LABELS_def)
  have full: "loopBody P callerOrigin st originStr = Continue (st\<lparr>hitLimits := True\<rparr>)"
    if "length (uniqueLabels st) = 5"
    using that elem by (simp add: loopBody_def MAX_LABELS_def)
  let ?r = "matchLoop P callerOrigin (st\<lparr>hitLimits := True\<rparr>) rest"
  have hit: "?r = SUCCESS \<or> ?r = BAD_RELYING_PARTY_ID_NO_JSON_MATCH_HIT_LIMITS"
    using matchLoop_hit[of "st\<lparr>hitLimits := True\<rparr>" P callerOrigin rest] by auto
  have nomatch: "?r = BAD_RELYING_PARTY_ID_NO_JSON_MATCH_HIT_LIMITS"
    if full: "length (uniqueLabels st) = 5"
      and "\<forall>x \<in> set rest. \<forall>xURL xLabel. URL P x = Some xURL
        \<longrightarrow> getLabel P (hostname xURL) = Inr xLabel
        \<longrightarrow> xLabel \<in> set (uniqueLabels st)
        \<longrightarrow> \<not> originMatches x callerOrigin"
    using that hit
      matchLoop_full_success[of "st\<lparr>hitLimits := True\<rparr>" P callerOrigin rest]
    by (auto simp: MAX_LABELS_def)
  show ?thesis
    using inv run room full hit nomatch
    by (auto simp: quota_inv_def MAX_LABELS_def)
qed

text \<open>
  The two runs of the test suite: five labels with the caller's origin as the fifth, and
  six labels with the caller's origin as the sixth.
\<close>

theorem label_quota_is_five_witness:
  \<open>validateWellKnownJSON example_platform ''https://foo.com''
      ''{"origins": ["https://a.com", "https://b.com", "https://c.com", "https://d.com", "https://foo.com"]}''
     = Inr SUCCESS
   \<and> validateWellKnownJSON example_platform ''https://foo.com''
      ''{"origins": ["https://a.com", "https://b.com", "https://c.com", "https://d.com", "https://e.com", "https://foo.com"]}''
     = Inr BAD_RELYING_PARTY_ID_NO_JSON_MATCH_HIT_LIMITS\<close>
proof -
  let ?P = example_platform
  let ?c = "''https://foo.com''"
  let ?four = "[''https://a.com'', ''https://b.com'', ''https://c.com'', ''https://d.com'']"
  let ?five = "?four @ [''https://e.com'']"
  let ?st4 = "\<lparr>uniqueLabels = [''a'', ''b'', ''c'', ''d''], hitLimits = False\<rparr>"
  let ?st5 = "\<lparr>uniqueLabels = [''a'', ''b'', ''c'', ''d'', ''e''], hitLimits = False\<rparr>"
  let ?props4 = "[(''origins'', JArray (map JString (?four @ ?c # [])))]"
  let ?props5 = "[(''origins'', JArray (map JString (?five @ ?c # [])))]"
  have caller: "URL ?P ?c = Some \<lparr>protocol = ''https:'', hostname = ''foo.com''\<rparr>"
    by (simp add: example_defs)
  have label: "getLabel ?P (hostname \<lparr>protocol = ''https:'', hostname = ''foo.com''\<rparr>) = Inr ''foo''"
    by (simp add: run_defs)
  have eq: "originMatches ?c ?c"
    by (simp add: originMatches_def)
  have doc4: \<open>JSON_parse ?P
      ''{"origins": ["https://a.com", "https://b.com", "https://c.com", "https://d.com", "https://foo.com"]}''
      = Some (JObject ?props4)\<close>
    by (simp add: example_defs)
  have doc5: \<open>JSON_parse ?P
      ''{"origins": ["https://a.com", "https://b.com", "https://c.com", "https://d.com", "https://e.com", "https://foo.com"]}''
      = Some (JObject ?props5)\<close>
    by (simp add: example_defs)
  have before4: "stateAfter ?P ?c initial_state ?four = Some ?st4"
    by (simp add: run_defs)
  have before5: "stateAfter ?P ?c initial_state ?five = Some ?st5"
    by (simp add: run_defs)
  have fifth: "validateWellKnownJSON ?P ?c
      ''{\"origins\": [\"https://a.com\", \"https://b.com\", \"https://c.com\", \"https://d.com\", \"https://foo.com\"]}''
      = Inr SUCCESS"
    using label_quota_is_five[OF doc4 _ caller before4 caller _ label _ eq]
    by simp
  have sixth: "validateWellKnownJSON ?P ?c
      ''{\"origins\": [\"https://a.com\", \"https://b.com\", \"https://c.com\", \"https://d.com\", \"https://e.com\", \"https://foo.com\"]}''
      = Inr BAD_RELYING_PARTY_ID_NO_JSON_MATCH_HIT_LIMITS"
    using label_quota_is_five[OF doc5 _ caller before5 caller _ label _ eq]
    by simp
  from fifth sixth show ?thesis by simp
qed

text \<open>
  Claim C3. The function is to return JSON_PARSE_ERROR exactly on a document that does not
  parse or is not structurally valid. The code does so on every document but one that
  parses to null (\<open>parse_error_unless_null\<close> above): there the read of
  \<^verbatim>\<open>webAuthnResp.origins\<close>, which is outside every \<^verbatim>\<open>try\<close>, throws a
  TypeError, and the function returns no status at all.
\<close>

theorem null_document_throws:
  assumes "JSON_parse P jsonData = Some JNull"
  shows "validateWellKnownJSON P callerOrigin jsonData = Inl TypeError"
  using assms by (simp add: validateWellKnownJSON_def)

text \<open>The run on the document \<^verbatim>\<open>null\<close>.\<close>

theorem null_document_throws_witness:
  "validateWellKnownJSON example_platform ''https://foo.com'' ''null'' = Inl TypeError"
proof -
  have "JSON_parse example_platform ''null'' = Some JNull"
    by (simp add: example_defs)
  then show ?thesis
    by (rule null_document_throws)
qed

text \<open>
  Claim C4. The loop compares two texts of the element with the same two texts of the
  caller origin, as they are written: the text before the first \<^verbatim>\<open>://\<close> and the
  text between it and the next slash. Equality of both decides the match: an element that
  is reached with a label that is in the set, or for which the set has room, returns
  SUCCESS exactly when both texts are equal, and a structurally valid document gives
  SUCCESS for a caller origin that parses exactly when it has such an element. For a
  scheme without a colon and a host, with or without a port, without a slash, the two
  texts are the scheme and the host with its port, whatever path follows. So
  \<^verbatim>\<open>https://foo.com/path\<close> matches the caller \<^verbatim>\<open>https://foo.com\<close>, neither
  \<^verbatim>\<open>HTTPS://Foo.com\<close> nor \<^verbatim>\<open>https://FOO.COM\<close> does, a document whose only
  origin is \<^verbatim>\<open>HTTPS://Foo.com\<close> gives NO_MATCH for that caller, and so does the
  document whose only origin is \<^verbatim>\<open>https://foo.com:9090\<close> for the caller
  \<^verbatim>\<open>https://foo.com:8080\<close>, whatever the platform makes of these strings.
\<close>

theorem comparison_is_raw_and_case_sensitive:
  "(loopBody P callerOrigin st originStr = ReturnSuccess \<longleftrightarrow>
      (\<exists>originURL label. URL P originStr = Some originURL \<and> hostname originURL \<noteq> []
         \<and> getLabel P (hostname originURL) = Inr label
         \<and> (label \<in> set (uniqueLabels st) \<or> length (uniqueLabels st) < 5)
         \<and> schemeOf originStr = schemeOf callerOrigin
         \<and> hostOf originStr = hostOf callerOrigin))
   \<and> (JSON_parse P jsonData = Some (JObject props)
      \<and> map_of props ''origins'' = Some (JArray (map JString origins))
      \<and> URL P callerOrigin = Some callerURL
      \<longrightarrow> (validateWellKnownJSON P callerOrigin jsonData = Inr SUCCESS \<longleftrightarrow>
            (\<exists>before x rest reached xURL xLabel. origins = before @ x # rest
               \<and> stateAfter P callerOrigin initial_state before = Some reached
               \<and> URL P x = Some xURL \<and> hostname xURL \<noteq> []
               \<and> getLabel P (hostname xURL) = Inr xLabel
               \<and> (xLabel \<in> set (uniqueLabels reached) \<or> length (uniqueLabels reached) < 5)
               \<and> schemeOf x = schemeOf callerOrigin \<and> hostOf x = hostOf callerOrigin)))
   \<and> (JSON_parse P jsonData = Some (JObject props)
      \<and> map_of props ''origins'' = Some (JArray (map JString origins))
      \<and> validateWellKnownJSON P callerOrigin jsonData = Inr SUCCESS
      \<longrightarrow> (\<exists>x \<in> set origins. schemeOf x = schemeOf callerOrigin
             \<and> hostOf x = hostOf callerOrigin))
   \<and> (JSON_parse P single = Some (JObject [(''origins'', JArray [JString originStr])])
      \<and> URL P callerOrigin = Some callerURL
      \<and> URL P originStr = Some singleURL \<and> hostname singleURL \<noteq> []
      \<and> getLabel P (hostname singleURL) = Inr singleLabel
      \<longrightarrow> (validateWellKnownJSON P callerOrigin single = Inr SUCCESS \<longleftrightarrow>
            schemeOf originStr = schemeOf callerOrigin
            \<and> hostOf originStr = hostOf callerOrigin))
   \<and> (CHR '':'' \<notin> set scheme \<and> CHR ''/'' \<notin> set hostport
      \<and> (hostport = [] \<or> last hostport \<noteq> CHR '':'')
      \<longrightarrow> schemeOf (scheme @ ''://'' @ hostport) = scheme
          \<and> hostOf (scheme @ ''://'' @ hostport) = hostport
          \<and> schemeOf (scheme @ ''://'' @ hostport @ CHR ''/'' # path) = scheme
          \<and> hostOf (scheme @ ''://'' @ hostport @ CHR ''/'' # path) = hostport)
   \<and> originMatches ''https://foo.com/path'' ''https://foo.com''
   \<and> \<not> originMatches ''HTTPS://Foo.com'' ''https://foo.com''
   \<and> \<not> originMatches ''https://FOO.COM'' ''https://foo.com''
   \<and> \<not> originMatches ''https://foo.com:9090'' ''https://foo.com:8080''
   \<and> (JSON_parse P upper = Some (JObject [(''origins'', JArray [JString ''HTTPS://Foo.com''])])
      \<longrightarrow> validateWellKnownJSON P ''https://foo.com'' upper
            = Inr BAD_RELYING_PARTY_ID_NO_JSON_MATCH)
   \<and> (JSON_parse P port = Some (JObject [(''origins'', JArray [JString ''https://foo.com:9090''])])
      \<longrightarrow> validateWellKnownJSON P ''https://foo.com:8080'' port
            = Inr BAD_RELYING_PARTY_ID_NO_JSON_MATCH)"
proof -
  have body: "loopBody P callerOrigin s x = ReturnSuccess \<longleftrightarrow>
      (\<exists>xURL xLabel. URL P x = Some xURL \<and> hostname xURL \<noteq> []
         \<and> getLabel P (hostname xURL) = Inr xLabel
         \<and> (xLabel \<in> set (uniqueLabels s) \<or> length (uniqueLabels s) < 5)
         \<and> schemeOf x = schemeOf callerOrigin \<and> hostOf x = hostOf callerOrigin)" for s x
    by (simp add: loopBody_success_iff originMatches_def MAX_LABELS_def)
  have document: "validateWellKnownJSON P callerOrigin jsonData = Inr SUCCESS \<longleftrightarrow>
      (\<exists>before x rest reached xURL xLabel. origins = before @ x # rest
         \<and> stateAfter P callerOrigin initial_state before = Some reached
         \<and> URL P x = Some xURL \<and> hostname xURL \<noteq> []
         \<and> getLabel P (hostname xURL) = Inr xLabel
         \<and> (xLabel \<in> set (uniqueLabels reached) \<or> length (uniqueLabels reached) < 5)
         \<and> schemeOf x = schemeOf callerOrigin \<and> hostOf x = hostOf callerOrigin)"
    if "JSON_parse P jsonData = Some (JObject props)"
      and "map_of props ''origins'' = Some (JArray (map JString origins))"
      and "URL P callerOrigin = Some callerURL"
  proof -
    have "validateWellKnownJSON P callerOrigin jsonData = Inr SUCCESS \<longleftrightarrow>
        matchLoop P callerOrigin initial_state origins = SUCCESS"
      using validate_valid_document[OF that] by simp
    also have "\<dots> \<longleftrightarrow> (\<exists>before x rest reached. origins = before @ x # rest
        \<and> stateAfter P callerOrigin initial_state before = Some reached
        \<and> loopBody P callerOrigin reached x = ReturnSuccess)"
      by (rule matchLoop_success_iff)
    finally show ?thesis
      unfolding body by blast
  qed
  have general: "\<exists>x \<in> set origins. schemeOf x = schemeOf callerOrigin
      \<and> hostOf x = hostOf callerOrigin"
    if "JSON_parse P jsonData = Some (JObject props)"
      and "map_of props ''origins'' = Some (JArray (map JString origins))"
      and "validateWellKnownJSON P callerOrigin jsonData = Inr SUCCESS"
    using that validate_valid_document_any_caller[of P jsonData props origins callerOrigin]
      matchLoop_success[of P callerOrigin initial_state origins]
    by (auto simp: originMatches_def split: option.splits)
  have one: "validateWellKnownJSON P callerOrigin single = Inr SUCCESS \<longleftrightarrow>
      schemeOf originStr = schemeOf callerOrigin \<and> hostOf originStr = hostOf callerOrigin"
    if "JSON_parse P single = Some (JObject [(''origins'', JArray [JString originStr])])"
      and "URL P callerOrigin = Some callerURL"
      and "URL P originStr = Some singleURL" and "hostname singleURL \<noteq> []"
      and "getLabel P (hostname singleURL) = Inr singleLabel"
  proof -
    have "validateWellKnownJSON P callerOrigin single
        = Inr (matchLoop P callerOrigin initial_state [originStr])"
      using validate_valid_document[of P single "[(''origins'', JArray [JString originStr])]"
          "[originStr]" callerOrigin callerURL] that(1,2)
      by simp
    moreover have "loopBody P callerOrigin initial_state originStr = ReturnSuccess \<longleftrightarrow>
        schemeOf originStr = schemeOf callerOrigin \<and> hostOf originStr = hostOf callerOrigin"
      unfolding body using that(3-5) by (simp add: initial_state_def)
    ultimately show ?thesis
      by (auto split: iteration.splits)
  qed
  have path: "originMatches ''https://foo.com/path'' ''https://foo.com''"
    by (simp add: originMatches_def schemeOf_def hostOf_def)
  have upper: "\<not> originMatches ''HTTPS://Foo.com'' ''https://foo.com''"
    by (simp add: originMatches_def schemeOf_def)
  have host: "\<not> originMatches ''https://FOO.COM'' ''https://foo.com''"
    by (simp add: originMatches_def schemeOf_def hostOf_def)
  have port: "\<not> originMatches ''https://foo.com:9090'' ''https://foo.com:8080''"
    by (simp add: originMatches_def schemeOf_def hostOf_def)
  have alone: "validateWellKnownJSON P c doc = Inr BAD_RELYING_PARTY_ID_NO_JSON_MATCH"
    if "JSON_parse P doc = Some (JObject [(''origins'', JArray [JString x])])"
      and "\<not> originMatches x c" for c doc x
  proof -
    have "matchLoop P c initial_state [x] = BAD_RELYING_PARTY_ID_NO_JSON_MATCH"
      using that(2) by (intro matchLoop_no_match) (simp_all add: initial_state_def MAX_LABELS_def)
    then show ?thesis
      using validate_valid_document_any_caller[of P doc "[(''origins'', JArray [JString x])]" "[x]" c] that(1)
      by (simp split: option.splits)
  qed
  note texts = scheme_and_host_texts(1,2)[of scheme hostport]
    scheme_and_host_texts(3,4)[of scheme hostport path]
  show ?thesis
    apply (intro conjI impI)
    subgoal by (rule body)
    subgoal by (rule document) auto
    subgoal by (rule general) auto
    subgoal by (rule one) auto
    subgoal using texts by blast
    subgoal using texts by blast
    subgoal using texts by blast
    subgoal using texts by blast
    subgoal by (rule path)
    subgoal by (rule upper)
    subgoal by (rule host)
    subgoal by (rule port)
    subgoal by (rule alone[OF _ upper])
    subgoal by (rule alone[OF _ port])
    done
qed

text \<open>
  The two documents of the claim, a document that matches, and the texts of an origin with
  a port and a path.
\<close>

theorem comparison_is_raw_and_case_sensitive_witness:
  \<open>validateWellKnownJSON example_platform ''https://foo.com'' ''{"origins": ["HTTPS://Foo.com"]}''
     = Inr BAD_RELYING_PARTY_ID_NO_JSON_MATCH
   \<and> validateWellKnownJSON example_platform ''https://foo.com:8080'' ''{"origins":["https://foo.com:9090"]}''
     = Inr BAD_RELYING_PARTY_ID_NO_JSON_MATCH
   \<and> validateWellKnownJSON example_platform ''https://foo.com'' ''{"origins": ["https://foo.com"]}''
     = Inr SUCCESS
   \<and> schemeOf ''https://foo.com:8080/path'' = ''https''
   \<and> hostOf ''https://foo.com:8080/path'' = ''foo.com:8080''\<close>
proof -
  let ?P = example_platform
  let ?c = "''https://foo.com''"
  let ?url = "\<lparr>protocol = ''https:'', hostname = ''foo.com''\<rparr>"
  note claim = comparison_is_raw_and_case_sensitive[of ?P ?c initial_state ?c
      \<open>''{"origins": ["https://foo.com"]}''\<close> "[(''origins'', JArray (map JString [?c]))]" "[?c]"
      ?url \<open>''{"origins": ["https://foo.com"]}''\<close> ?url "''foo''"
      "''https''" "''foo.com:8080''" "''path''"
      \<open>''{"origins": ["HTTPS://Foo.com"]}''\<close> \<open>''{"origins":["https://foo.com:9090"]}''\<close>]
  have doc: \<open>JSON_parse ?P ''{"origins": ["https://foo.com"]}''
      = Some (JObject [(''origins'', JArray [JString ?c])])\<close>
    by (simp add: example_defs)
  have url: "URL ?P ?c = Some ?url"
    by (simp add: example_defs)
  have label: "getLabel ?P (hostname ?url) = Inr ''foo''"
    by (simp add: run_defs)
  have success: \<open>validateWellKnownJSON ?P ?c ''{"origins": ["https://foo.com"]}'' = Inr SUCCESS\<close>
    using claim doc url label by simp
  have upper: \<open>validateWellKnownJSON ?P ?c ''{"origins": ["HTTPS://Foo.com"]}''
      = Inr BAD_RELYING_PARTY_ID_NO_JSON_MATCH\<close>
    using claim by (simp add: example_defs)
  have port: \<open>validateWellKnownJSON ?P ''https://foo.com:8080'' ''{"origins":["https://foo.com:9090"]}''
      = Inr BAD_RELYING_PARTY_ID_NO_JSON_MATCH\<close>
    using claim by (simp add: example_defs)
  have texts: "schemeOf ''https://foo.com:8080/path'' = ''https''
      \<and> hostOf ''https://foo.com:8080/path'' = ''foo.com:8080''"
    using claim by simp
  from success upper port texts show ?thesis
    by simp
qed

text \<open>
  Claim C5. In a structurally valid document scanned for a caller origin that parses, take
  an element that the loop reaches, without having returned, after the flag has been set
  (so the set is full), whose label is in the set already and which equals the caller
  origin in the loop's comparison. The result is SUCCESS: the flag has not ended the scan.
\<close>

theorem admitted_label_matches_after_exhaustion:
  assumes doc: "JSON_parse P jsonData = Some (JObject props)"
      "map_of props ''origins'' = Some (JArray (map JString (before @ originStr # rest)))"
    and caller: "URL P callerOrigin = Some callerURL"
    and before: "stateAfter P callerOrigin initial_state before = Some st"
    and exceeded: "hitLimits st"
    and elem: "URL P originStr = Some originURL" "hostname originURL \<noteq> []"
      "getLabel P (hostname originURL) = Inr label" "label \<in> set (uniqueLabels st)"
    and eq: "originMatches originStr callerOrigin"
  shows "length (uniqueLabels st) = 5
     \<and> validateWellKnownJSON P callerOrigin jsonData = Inr SUCCESS"
proof -
  have "quota_inv st"
    using stateAfter_inv[OF initial_inv before] .
  with exceeded have full: "length (uniqueLabels st) = 5"
    by (simp add: quota_inv_def MAX_LABELS_def)
  have "loopBody P callerOrigin st originStr = ReturnSuccess"
    using elem eq by (simp add: loopBody_def)
  then have "matchLoop P callerOrigin st (originStr # rest) = SUCCESS"
    by simp
  then have "validateWellKnownJSON P callerOrigin jsonData = Inr SUCCESS"
    using validate_valid_document[OF doc caller] before
    by (simp add: matchLoop_append)
  with full show ?thesis by simp
qed

text \<open>
  Five labels, a sixth that sets the flag, and then a subdomain of the first, which is the
  caller's origin.
\<close>

theorem admitted_label_matches_after_exhaustion_witness:
  \<open>validateWellKnownJSON example_platform ''https://sub.a.com''
      ''{"origins": ["https://a.com", "https://b.com", "https://c.com", "https://d.com", "https://e.com", "https://foo.com", "https://sub.a.com"]}''
     = Inr SUCCESS\<close>
proof -
  let ?P = example_platform
  let ?c = "''https://sub.a.com''"
  let ?six = "[''https://a.com'', ''https://b.com'', ''https://c.com'', ''https://d.com'',
    ''https://e.com'', ''https://foo.com'']"
  let ?st = "\<lparr>uniqueLabels = [''a'', ''b'', ''c'', ''d'', ''e''], hitLimits = True\<rparr>"
  let ?url = "\<lparr>protocol = ''https:'', hostname = ''sub.a.com''\<rparr>"
  have doc: \<open>JSON_parse ?P
      ''{"origins": ["https://a.com", "https://b.com", "https://c.com", "https://d.com", "https://e.com", "https://foo.com", "https://sub.a.com"]}''
      = Some (JObject [(''origins'', JArray (map JString (?six @ ?c # [])))])\<close>
    by (simp add: example_defs)
  have origins: "map_of [(''origins'', JArray (map JString (?six @ ?c # [])))] ''origins''
      = Some (JArray (map JString (?six @ ?c # [])))"
    by simp
  have caller: "URL ?P ?c = Some ?url"
    by (simp add: example_defs)
  have before: "stateAfter ?P ?c initial_state ?six = Some ?st"
    by (simp add: run_defs)
  have exceeded: "hitLimits ?st"
    by simp
  have host: "hostname ?url \<noteq> []"
    by simp
  have label: "getLabel ?P (hostname ?url) = Inr ''a''"
    by (simp add: run_defs)
  have admitted: "''a'' \<in> set (uniqueLabels ?st)"
    by simp
  have eq: "originMatches ?c ?c"
    by (simp add: originMatches_def)
  from admitted_label_matches_after_exhaustion
    [OF doc origins caller before exceeded caller host label admitted eq]
  show ?thesis by simp
qed

text \<open>
  Claim C6. \<^verbatim>\<open>fetchWellKnownWebAuthn\<close> rejects exactly when the relying party
  identifier does not give a URL, or \<^verbatim>\<open>fetch\<close> rejects (a network error, or the abort
  at the timeout), or the response is not ok, or its declared or its actual length is over
  the limit, or reading its body rejects. Whenever it rejects and the direct check has not
  authorized the pair, \<^verbatim>\<open>validateOrigin\<close> returns NO_MATCH.
\<close>

theorem fetch_failure_is_no_match:
  "((\<exists>e. fetchWellKnownWebAuthn P domain = Rejected e) \<longleftrightarrow>
      URL P (if \<not> startsWith domain ''https://'' \<and> \<not> startsWith domain ''http://''
             then ''https://'' @ domain else domain) = None
      \<or> (\<exists>url. wellKnownURL P domain = Inr url \<and>
            (isl (fetch P url)
             \<or> (\<exists>resp. fetch P url = Inr resp \<and>
                   (\<not> ok resp \<or> declaredTooLarge P resp \<or> (\<exists>e. text_body resp = Rejected e)
                    \<or> (\<exists>txt. text_body resp = Fulfilled txt
                          \<and> int (length txt) > MAX_BODY_SIZE))))))
   \<and> (\<not> isValidDomainForOrigin P callerOrigin domain
        \<and> (\<exists>e. fetchWellKnownWebAuthn P domain = Rejected e)
        \<longrightarrow> validateOrigin P callerOrigin domain = Fulfilled BAD_RELYING_PARTY_ID_NO_JSON_MATCH)"
proof -
  have orchestrator: "validateOrigin P callerOrigin domain
      = Fulfilled BAD_RELYING_PARTY_ID_NO_JSON_MATCH"
    if "\<not> isValidDomainForOrigin P callerOrigin domain"
      and "\<exists>e. fetchWellKnownWebAuthn P domain = Rejected e"
    using that by (auto simp: validateOrigin_def)
  have failures: "(\<exists>e. fetchWellKnownWebAuthn P domain = Rejected e) \<longleftrightarrow>
      URL P (if \<not> startsWith domain ''https://'' \<and> \<not> startsWith domain ''http://''
             then ''https://'' @ domain else domain) = None
      \<or> (\<exists>url. wellKnownURL P domain = Inr url \<and>
            (isl (fetch P url)
             \<or> (\<exists>resp. fetch P url = Inr resp \<and>
                   (\<not> ok resp \<or> declaredTooLarge P resp \<or> (\<exists>e. text_body resp = Rejected e)
                    \<or> (\<exists>txt. text_body resp = Fulfilled txt
                          \<and> int (length txt) > MAX_BODY_SIZE)))))"
    by (auto simp: fetchWellKnownWebAuthn_def wellKnownURL_def Let_def
        split: sum.splits option.splits if_splits promise.splits)
  show ?thesis
    using orchestrator failures by blast
qed

text \<open>
  A host that answers 404, a host that is not reached, and an identifier that is not a
  domain.
\<close>

theorem fetch_failure_is_no_match_witness:
  "validateOrigin example_platform ''https://foo.com'' ''bar.com''
     = Fulfilled BAD_RELYING_PARTY_ID_NO_JSON_MATCH
   \<and> validateOrigin example_platform ''https://foo.com'' ''a.com''
     = Fulfilled BAD_RELYING_PARTY_ID_NO_JSON_MATCH
   \<and> validateOrigin example_platform ''https://foo.com'' ''not a domain''
     = Fulfilled BAD_RELYING_PARTY_ID_NO_JSON_MATCH"
proof -
  let ?P = example_platform
  let ?c = "''https://foo.com''"
  have direct: "\<not> isValidDomainForOrigin ?P ?c ''bar.com''"
    "\<not> isValidDomainForOrigin ?P ?c ''a.com''"
    "\<not> isValidDomainForOrigin ?P ?c ''not a domain''"
    by (simp_all add: isValidDomainForOrigin_def example_defs endsWith_def)
  have status: "\<exists>e. fetchWellKnownWebAuthn ?P ''bar.com'' = Rejected e"
    by (simp add: fetchWellKnownWebAuthn_def wellKnownURL_def startsWith_def example_defs
        WELL_KNOWN_PATH_def rethrow_def)
  have network: "\<exists>e. fetchWellKnownWebAuthn ?P ''a.com'' = Rejected e"
    by (simp add: fetchWellKnownWebAuthn_def wellKnownURL_def startsWith_def example_defs
        WELL_KNOWN_PATH_def rethrow_def)
  have unparsable: "\<exists>e. fetchWellKnownWebAuthn ?P ''not a domain'' = Rejected e"
    by (simp add: fetchWellKnownWebAuthn_def wellKnownURL_def startsWith_def example_defs)
  show ?thesis
    using fetch_failure_is_no_match[of ?P "''bar.com''" ?c]
      fetch_failure_is_no_match[of ?P "''a.com''" ?c]
      fetch_failure_is_no_match[of ?P "''not a domain''" ?c]
      direct status network unparsable
    by blast
qed

text \<open>
  Claim C7. \<^verbatim>\<open>validateOrigin\<close> is to settle, on every pair of inputs, with a status
  that is SUCCESS, JSON_PARSE_ERROR, NO_MATCH or NO_MATCH_HIT_LIMITS. The code never
  rejects, and a status it settles with is one of these four, with ordinal 0, 1, 2 or 3,
  never NOT_SUBDOMAIN_OF_ORIGIN, whose ordinal is 4. But it does not always settle: the
  abort timer is cleared when the response arrives, before its body is awaited, so when the
  direct check fails and an ok response of acceptable declared length never delivers its
  body, the promise of \<^verbatim>\<open>validateOrigin\<close> stays pending; that is the only case.
\<close>

theorem validateOrigin_pending_or_status:
  "(validateOrigin P callerOrigin domain = Pending \<longleftrightarrow>
      \<not> isValidDomainForOrigin P callerOrigin domain
      \<and> (\<exists>url resp. wellKnownURL P domain = Inr url \<and> fetch P url = Inr resp
            \<and> ok resp \<and> \<not> declaredTooLarge P resp \<and> text_body resp = Pending))
   \<and> (\<forall>e. validateOrigin P callerOrigin domain \<noteq> Rejected e)
   \<and> (\<forall>status. validateOrigin P callerOrigin domain = Fulfilled status \<longrightarrow>
         status \<in> {SUCCESS, BAD_RELYING_PARTY_ID_JSON_PARSE_ERROR,
           BAD_RELYING_PARTY_ID_NO_JSON_MATCH, BAD_RELYING_PARTY_ID_NO_JSON_MATCH_HIT_LIMITS}
         \<and> status \<noteq> BAD_RELYING_PARTY_ID_NOT_SUBDOMAIN_OF_ORIGIN
         \<and> ordinal status \<in> {0, 1, 2, 3})
   \<and> ordinal BAD_RELYING_PARTY_ID_NOT_SUBDOMAIN_OF_ORIGIN = 4"
proof -
  have fetch_pending: "fetchWellKnownWebAuthn P domain = Pending \<longleftrightarrow>
      (\<exists>url resp. wellKnownURL P domain = Inr url \<and> fetch P url = Inr resp
         \<and> ok resp \<and> \<not> declaredTooLarge P resp \<and> text_body resp = Pending)"
    by (auto simp: fetchWellKnownWebAuthn_def split: sum.splits promise.splits if_splits)
  have pending: "validateOrigin P callerOrigin domain = Pending \<longleftrightarrow>
      \<not> isValidDomainForOrigin P callerOrigin domain
      \<and> fetchWellKnownWebAuthn P domain = Pending"
    by (auto simp: validateOrigin_def split: promise.splits sum.splits)
  have never_rejects: "validateOrigin P callerOrigin domain \<noteq> Rejected e" for e
    by (auto simp: validateOrigin_def split: promise.splits sum.splits)
  have range: "status \<in> {SUCCESS, BAD_RELYING_PARTY_ID_JSON_PARSE_ERROR,
      BAD_RELYING_PARTY_ID_NO_JSON_MATCH, BAD_RELYING_PARTY_ID_NO_JSON_MATCH_HIT_LIMITS}"
    if "validateOrigin P callerOrigin domain = Fulfilled status" for status
    using that validateWellKnownJSON_range[of P callerOrigin _ status]
    by (auto simp: validateOrigin_def split: promise.splits sum.splits if_splits)
  show ?thesis
    using pending fetch_pending never_rejects range
    by auto
qed

text \<open>
  A host that answers 200 and never sends its body, and a run through the fetch and the
  matcher that settles.
\<close>

theorem validateOrigin_pending_or_status_witness:
  "validateOrigin example_platform ''https://foo.com'' ''stalled.com'' = Pending
   \<and> validateOrigin example_platform ''https://foo.com'' ''baz.com'' = Fulfilled SUCCESS
   \<and> ordinal SUCCESS = 0"
proof -
  let ?P = example_platform
  let ?c = "''https://foo.com''"
  let ?resp = "\<lparr>ok = True, content_length = None, text_body = Pending\<rparr>"
  have direct: "\<not> isValidDomainForOrigin ?P ?c ''stalled.com''"
    by (simp add: isValidDomainForOrigin_def example_defs endsWith_def)
  have url: "wellKnownURL ?P ''stalled.com'' = Inr ''https://stalled.com/.well-known/webauthn''"
    by (simp add: wellKnownURL_def startsWith_def example_defs WELL_KNOWN_PATH_def)
  have resp: "fetch ?P ''https://stalled.com/.well-known/webauthn'' = Inr ?resp"
    by (simp add: example_defs)
  have body: "ok ?resp \<and> \<not> declaredTooLarge ?P ?resp \<and> text_body ?resp = Pending"
    by (simp add: declaredTooLarge_def)
  have stalled: "validateOrigin ?P ?c ''stalled.com'' = Pending"
    using validateOrigin_pending_or_status[of ?P ?c "''stalled.com''"] direct url resp body
    by blast
  have settled: "validateOrigin ?P ?c ''baz.com'' = Fulfilled SUCCESS"
    by (simp add: validateOrigin_def isValidDomainForOrigin_def endsWith_def
        fetchWellKnownWebAuthn_def wellKnownURL_def declaredTooLarge_def startsWith_def
        WELL_KNOWN_PATH_def MAX_BODY_SIZE_def validateWellKnownJSON_def run_defs)
  from stalled settled show ?thesis
    by simp
qed

text \<open>
  Claim C8. \<^verbatim>\<open>getLabel\<close> fails exactly when the hostname contains no dot or
  \<^verbatim>\<open>psl.parse\<close> gives no registrable domain for it. Otherwise it returns the
  whole registrable domain when that contains no dot, and else the part of the registrable
  domain before its first dot.
\<close>

theorem getLabel_result:
  "(isl (getLabel P h) \<longleftrightarrow> CHR ''.'' \<notin> set h \<or> parsedDomain (psl_parse P h) = None)
   \<and> (\<forall>etld. CHR ''.'' \<in> set h \<and> parsedDomain (psl_parse P h) = Some etld \<longrightarrow>
          (if CHR ''.'' \<notin> set etld then getLabel P h = Inr etld
           else \<exists>label rest. getLabel P h = Inr label \<and> etld = label @ CHR ''.'' # rest
                  \<and> CHR ''.'' \<notin> set label))"
proof -
  have before_dot: "\<exists>rest. etld = takeWhile (\<lambda>c. c \<noteq> CHR ''.'') etld @ CHR ''.'' # rest"
    if "CHR ''.'' \<in> set etld" for etld :: string
  proof -
    from that have "dropWhile (\<lambda>c. c \<noteq> CHR ''.'') etld \<noteq> []"
      by simp
    moreover have "hd (dropWhile (\<lambda>c. c \<noteq> CHR ''.'') etld) = CHR ''.''"
      using that hd_dropWhile[of "\<lambda>c. c \<noteq> CHR ''.''" etld] by simp
    ultimately obtain rest where "dropWhile (\<lambda>c. c \<noteq> CHR ''.'') etld = CHR ''.'' # rest"
      by (cases "dropWhile (\<lambda>c. c \<noteq> CHR ''.'') etld") auto
    then show ?thesis
      using takeWhile_dropWhile_id[of "\<lambda>c. c \<noteq> CHR ''.''" etld] by metis
  qed
  have no_dot: "CHR ''.'' \<notin> set (takeWhile (\<lambda>c. c \<noteq> CHR ''.'') etld)" for etld :: string
    by (auto dest: set_takeWhileD)
  show ?thesis
    using before_dot no_dot
    by (auto simp: getLabel_def split: option.splits)
qed

text \<open>
  A hostname under a two-label suffix, a hostname without a dot, and a public suffix,
  which has no registrable domain.
\<close>

theorem getLabel_result_witness:
  "getLabel example_platform ''sub.example.co.uk'' = Inr ''example''
   \<and> isl (getLabel example_platform ''localhost'')
   \<and> isl (getLabel example_platform ''co.uk'')"
  using getLabel_result[of example_platform "''sub.example.co.uk''"]
    getLabel_result[of example_platform "''localhost''"]
    getLabel_result[of example_platform "''co.uk''"]
  by (simp add: example_defs getLabel_def)

text \<open>
  Claim C9. In a structurally valid document, an element that does not parse as a URL, or
  has an empty hostname, or for which \<^verbatim>\<open>getLabel\<close> throws, leaves the state of the
  loop as it was (the set and the flag), and the result is that of the document without
  this element, for every caller origin.
\<close>

theorem unusable_element_is_skipped:
  assumes doc: "JSON_parse P jsonData = Some (JObject props)"
      "map_of props ''origins'' = Some (JArray (map JString (before @ originStr # rest)))"
    and without: "JSON_parse P jsonData' = Some (JObject props')"
      "map_of props' ''origins'' = Some (JArray (map JString (before @ rest)))"
    and unusable: "URL P originStr = None
      \<or> (\<exists>originURL. URL P originStr = Some originURL
            \<and> (hostname originURL = [] \<or> isl (getLabel P (hostname originURL))))"
  shows "loopBody P callerOrigin st originStr = Continue st
     \<and> validateWellKnownJSON P callerOrigin jsonData
         = validateWellKnownJSON P callerOrigin jsonData'"
proof -
  have skip: "loopBody P callerOrigin s originStr = Continue s" for s
    using unusable by (auto simp: loopBody_def Let_def split: sum.splits)
  have "matchLoop P callerOrigin initial_state (before @ originStr # rest)
          = matchLoop P callerOrigin initial_state (before @ rest)"
    by (simp add: matchLoop_append skip split: option.splits)
  then show ?thesis
    using validate_valid_document_any_caller[OF doc, of callerOrigin]
      validate_valid_document_any_caller[OF without, of callerOrigin] skip
    by (simp split: option.splits)
qed

text \<open>
  The run of the claim: an element that is not a URL, before the caller's origin.
\<close>

theorem unusable_element_is_skipped_witness:
  \<open>validateWellKnownJSON example_platform ''https://foo.com''
      ''{"origins": ["invalid-url", "https://foo.com"]}'' = Inr SUCCESS\<close>
proof -
  let ?P = example_platform
  let ?c = "''https://foo.com''"
  have doc: \<open>JSON_parse ?P ''{"origins": ["invalid-url", "https://foo.com"]}''
      = Some (JObject [(''origins'', JArray (map JString ([] @ ''invalid-url'' # [?c])))])\<close>
    by (simp add: example_defs)
  have origins: "map_of [(''origins'', JArray (map JString ([] @ ''invalid-url'' # [?c])))] ''origins''
      = Some (JArray (map JString ([] @ ''invalid-url'' # [?c])))"
    by simp
  have without: \<open>JSON_parse ?P ''{"origins": ["https://foo.com"]}''
      = Some (JObject [(''origins'', JArray (map JString ([] @ [?c])))])\<close>
    by (simp add: example_defs)
  have origins': "map_of [(''origins'', JArray (map JString ([] @ [?c])))] ''origins''
      = Some (JArray (map JString ([] @ [?c])))"
    by simp
  have unusable: "URL ?P ''invalid-url'' = None
      \<or> (\<exists>originURL. URL ?P ''invalid-url'' = Some originURL
            \<and> (hostname originURL = [] \<or> isl (getLabel ?P (hostname originURL))))"
    by (simp add: example_defs)
  have alone: \<open>validateWellKnownJSON ?P ?c ''{"origins": ["https://foo.com"]}'' = Inr SUCCESS\<close>
    by (simp add: validateWellKnownJSON_def run_defs)
  from unusable_element_is_skipped[OF doc origins without origins' unusable] alone
  show ?thesis by simp
qed

text \<open>
  Claim C10. A caller origin whose hostname has no dot is never to get SUCCESS. An element
  whose own hostname has no dot is indeed skipped (\<open>dotless_element_is_skipped\<close> above),
  but the comparison is on the written text, not on the hostname: in
  \<^verbatim>\<open>https:///localhost\<close> and \<^verbatim>\<open>https:///foo.com\<close> the text between
  \<^verbatim>\<open>://\<close> and the next slash is empty, while the \<^verbatim>\<open>URL\<close> constructor reads
  the hostnames \<^verbatim>\<open>localhost\<close> and \<^verbatim>\<open>foo.com\<close>. On a platform that parses
  these two strings so, the caller \<^verbatim>\<open>https:///localhost\<close> gets SUCCESS from the
  document whose only origin is \<^verbatim>\<open>https:///foo.com\<close>.
\<close>

theorem dotless_caller_can_succeed:
  assumes caller: "URL P ''https:///localhost'' = Some callerURL" "hostname callerURL = ''localhost''"
    and elem: "URL P ''https:///foo.com'' = Some originURL" "hostname originURL = ''foo.com''"
      "psl_parse P ''foo.com'' = PslParsed (Some ''foo.com'')"
    and doc: "JSON_parse P jsonData = Some (JObject [(''origins'', JArray [JString ''https:///foo.com''])])"
  shows "CHR ''.'' \<notin> set (hostname callerURL)
     \<and> validateWellKnownJSON P ''https:///localhost'' jsonData = Inr SUCCESS"
proof -
  have "originMatches ''https:///foo.com'' ''https:///localhost''"
    by (simp add: originMatches_def schemeOf_def hostOf_def)
  then have "loopBody P ''https:///localhost'' initial_state ''https:///foo.com'' = ReturnSuccess"
    using elem by (simp add: loopBody_def getLabel_def initial_state_def MAX_LABELS_def)
  then show ?thesis
    using caller doc
    by (simp add: validateWellKnownJSON_def)
qed

text \<open>The run on the example platform.\<close>

theorem dotless_caller_can_succeed_witness:
  \<open>validateWellKnownJSON example_platform ''https:///localhost''
      ''{"origins": ["https:///foo.com"]}'' = Inr SUCCESS\<close>
proof -
  let ?P = example_platform
  have caller: "URL ?P ''https:///localhost'' = Some \<lparr>protocol = ''https:'', hostname = ''localhost''\<rparr>"
    by (simp add: example_defs)
  have elem: "URL ?P ''https:///foo.com'' = Some \<lparr>protocol = ''https:'', hostname = ''foo.com''\<rparr>"
    by (simp add: example_defs)
  have domain: "psl_parse ?P ''foo.com'' = PslParsed (Some ''foo.com'')"
    by (simp add: example_defs)
  have doc: \<open>JSON_parse ?P ''{"origins": ["https:///foo.com"]}''
      = Some (JObject [(''origins'', JArray [JString ''https:///foo.com''])])\<close>
    by (simp add: example_defs)
  from dotless_caller_can_succeed[OF caller _ elem _ domain doc]
  show ?thesis by simp
qed

end
